theory Spec2Isabelle
  imports Complex_Main
begin

section \<open>Swarm metrics: the bucket generator\<close>

text \<open>
  Source: \<^verbatim>\<open>p2p/net/swarm/swarm_metrics.go\<close>.

  \<^verbatim>\<open>
  func exponentialDistribution(min, max float64) []float64 {
      var v []float64
      for d := min; d < 2*max; d *= 2 {
          v = append(v, d)
      }
      return v
  }
  \<close>

  A \<^verbatim>\<open>float64\<close> is a finite number, one of the two infinities, or NaN. A finite value
  is modelled by the real number it denotes (the two zeros are one value); the theorems
  below hold for every real and so for the representable ones. \<open>MaxFloat64\<close> is the
  largest finite \<^verbatim>\<open>float64\<close>, \<open>2\<^sup>1\<^sup>0\<^sup>2\<^sup>4 - 2\<^sup>9\<^sup>7\<^sup>1\<close>.

  The loop uses two operations. \<open>mul2\<close> is the product with the constant 2, as in
  \<^verbatim>\<open>2*max\<close> and \<^verbatim>\<open>d *= 2\<close>: doubling a finite \<^verbatim>\<open>float64\<close> is exact (it raises the
  exponent, or shifts a subnormal) unless the double exceeds \<open>MaxFloat64\<close> in magnitude,
  and then the result is the infinity of that sign; infinities and NaN are fixed.
  \<open>flt\<close> is the comparison \<^verbatim>\<open><\<close>: false whenever an operand is NaN, with
  \<open>-Inf\<close> below and \<open>+Inf\<close> above every finite value.
\<close>

datatype float64 = Fin real | PInf | NInf | NaN

definition MaxFloat64 :: real where
  "MaxFloat64 = 2 ^ 1024 - 2 ^ 971"

fun mul2 :: "float64 \<Rightarrow> float64" where
  "mul2 (Fin x) =
     (if MaxFloat64 < 2 * x then PInf
      else if 2 * x < - MaxFloat64 then NInf
      else Fin (2 * x))"
| "mul2 PInf = PInf"
| "mul2 NInf = NInf"
| "mul2 NaN = NaN"

fun flt :: "float64 \<Rightarrow> float64 \<Rightarrow> bool" where
  "flt (Fin x) (Fin y) = (x < y)"
| "flt (Fin x) PInf = True"
| "flt NInf (Fin y) = True"
| "flt NInf PInf = True"
| "flt x y = False"

text \<open>
  The loop need not terminate (it runs forever from \<open>min \<le> 0 < max\<close>), so it is a partial
  function: \<open>None\<close> stands for a loop that never returns. \<open>expLoop d max v\<close> is the loop
  entered with the loop variable \<open>d\<close> and the slice \<open>v\<close>. The parameters
  \<^verbatim>\<open>min\<close> and \<^verbatim>\<open>max\<close> are written \<open>mn\<close> and \<open>mx\<close>.
\<close>

partial_function (option) expLoop ::
  "float64 \<Rightarrow> float64 \<Rightarrow> float64 list \<Rightarrow> float64 list option" where
  "expLoop d mx v = (if flt d (mul2 mx) then expLoop (mul2 d) mx (v @ [d]) else Some v)"

definition exponentialDistribution :: "float64 \<Rightarrow> float64 \<Rightarrow> float64 list option" where
  "exponentialDistribution mn mx = expLoop mn mx []"

text \<open>
  The terms \<open>min, 2\<cdot>min, 4\<cdot>min, \<dots>\<close> the specification speaks of, as the program
  computes them: the first \<open>n\<close> of them. The term of index \<open>i\<close> is \<open>min\<close> doubled
  \<open>i\<close> times.
\<close>

definition doublings :: "float64 \<Rightarrow> nat \<Rightarrow> float64 list" where
  "doublings m n = map (\<lambda>i. (mul2 ^^ i) m) [0..<n]"

section \<open>Swarm metrics: measures, tag keys and views\<close>

text \<open>
  The metrics engine (OpenCensus) is an external library. Its values are modelled by what
  the source passes to it: a measure is the triple of strings given to \<^verbatim>\<open>stats.Int64\<close>,
  a tag key is the name given to \<^verbatim>\<open>tag.NewKey\<close> (the source discards the error that
  \<^verbatim>\<open>NewKey\<close> may return), a mutator is the call \<^verbatim>\<open>tag.Upsert(key, value)\<close>, and a
  measurement is the call \<^verbatim>\<open>measure.M(value)\<close>.
\<close>

record Measure =
  measureName :: string
  measureDescription :: string
  measureUnit :: string

definition UnitDimensionless :: string where
  "UnitDimensionless = ''1''"

definition UnitMilliseconds :: string where
  "UnitMilliseconds = ''ms''"

definition Int64 :: "string \<Rightarrow> string \<Rightarrow> string \<Rightarrow> Measure" where
  "Int64 n d u = \<lparr>measureName = n, measureDescription = d, measureUnit = u\<rparr>"

definition metricNamespace :: string where
  "metricNamespace = ''swarm/''"

definition connsOpened :: Measure where
  "connsOpened = Int64 (metricNamespace @ ''connections_opened'') ''Connections Opened'' UnitDimensionless"

definition connsClosed :: Measure where
  "connsClosed = Int64 (metricNamespace @ ''connections_closed'') ''Connections Closed'' UnitDimensionless"

definition connDuration :: Measure where
  "connDuration = Int64 (metricNamespace @ ''connection_duration'') ''Duration of a Connection'' UnitMilliseconds"

definition connHandshakeLatency :: Measure where
  "connHandshakeLatency =
     Int64 (metricNamespace @ ''handshake_latency'') ''Duration of the libp2p handshake'' UnitMilliseconds"

datatype Key = Key (keyName: string)

definition directionTag :: Key where
  "directionTag = Key ''dir''"

definition transportTag :: Key where
  "transportTag = Key ''transport''"

definition securityTag :: Key where
  "securityTag = Key ''security''"

definition muxerTag :: Key where
  "muxerTag = Key ''muxer''"

text \<open>
  \<^verbatim>\<open>time.Duration\<close> is a signed 64-bit count of nanoseconds; nothing here overflows, so
  it is an \<^typ>\<open>int\<close>. \<^verbatim>\<open>Milliseconds\<close> is Go's integer division by \<open>10\<^sup>6\<close>, which
  truncates towards zero (HOL's \<open>div\<close> rounds down, so the negative case is written out).
\<close>

type_synonym Duration = int

definition Millisecond :: Duration where
  "Millisecond = 1000000"

definition Hour :: Duration where
  "Hour = 3600 * 1000 * Millisecond"

definition Milliseconds :: "Duration \<Rightarrow> int" where
  "Milliseconds d = (if 0 \<le> d then d div 1000000 else - ((- d) div 1000000))"

text \<open>
  The package-level variables are initialised by running the bucket generator; an
  initialiser that did not return would leave them (and everything built from them)
  without a value, hence the \<open>option\<close>.
\<close>

text \<open>
  \<open>float64_of_int\<close> is the conversion \<^verbatim>\<open>float64(n)\<close> of an integer; it is exact for
  the integers of magnitude up to \<open>2\<^sup>5\<^sup>3\<close>, to which alone it is applied here.
\<close>

definition float64_of_int :: "int \<Rightarrow> float64" where
  "float64_of_int n = Fin (real_of_int n)"

definition connDurationMilliseconds :: "float64 list option" where
  "connDurationMilliseconds =
     exponentialDistribution (Fin 250) (float64_of_int (Milliseconds (7 * 24 * Hour)))"

definition handshakeLatencyMilliseconds :: "float64 list option" where
  "handshakeLatencyMilliseconds = exponentialDistribution (Fin 1) (Fin (60 * 1000))"

datatype Aggregation = Sum | Distribution "float64 list"

record View =
  Measure :: Measure
  Aggregation :: Aggregation
  TagKeys :: "Key list"

definition connOpenView :: View where
  "connOpenView =
     \<lparr>Measure = connsOpened, Aggregation = Sum,
      TagKeys = [directionTag, transportTag, securityTag, muxerTag]\<rparr>"

definition connClosedView :: View where
  "connClosedView =
     \<lparr>Measure = connsClosed, Aggregation = Sum,
      TagKeys = [directionTag, transportTag, securityTag, muxerTag]\<rparr>"

definition connDurationView :: "View option" where
  "connDurationView =
     (case connDurationMilliseconds of
        None \<Rightarrow> None
      | Some b \<Rightarrow> Some \<lparr>Measure = connDuration, Aggregation = Distribution b,
                         TagKeys = [directionTag, transportTag, securityTag, muxerTag]\<rparr>)"

definition connHandshakeLatencyView :: "View option" where
  "connHandshakeLatencyView =
     (case handshakeLatencyMilliseconds of
        None \<Rightarrow> None
      | Some b \<Rightarrow> Some \<lparr>Measure = connHandshakeLatency, Aggregation = Distribution b,
                         TagKeys = [transportTag, securityTag, muxerTag]\<rparr>)"

definition DefaultViews :: "View list option" where
  "DefaultViews =
     (case connDurationView of
        None \<Rightarrow> None
      | Some dv \<Rightarrow>
          (case connHandshakeLatencyView of
             None \<Rightarrow> None
           | Some hv \<Rightarrow> Some [connOpenView, connClosedView, dv, hv]))"

section \<open>Swarm metrics: the connection state tagger and the recorders\<close>

text \<open>
  \<^verbatim>\<open>network.Direction\<close> is an integer type with the constants \<^verbatim>\<open>DirUnknown\<close>,
  \<^verbatim>\<open>DirInbound\<close> and \<^verbatim>\<open>DirOutbound\<close> (declared in \<^verbatim>\<open>core/network\<close> as 0, 1, 2), so
  a direction outside the three names is a possible argument and takes the
  \<^verbatim>\<open>default\<close> branch. \<^verbatim>\<open>network.ConnectionState\<close> is the struct of the three
  identifiers the tagger reads; the empty string means that a field is not set.
\<close>

type_synonym Direction = int

definition DirUnknown :: Direction where
  "DirUnknown = 0"

definition DirInbound :: Direction where
  "DirInbound = 1"

definition DirOutbound :: Direction where
  "DirOutbound = 2"

record ConnectionState =
  StreamMultiplexer :: string
  Security :: string
  Transport :: string

datatype Mutator = Upsert Key string

datatype Measurement = M Measure int

definition getDirection :: "Direction \<Rightarrow> string" where
  "getDirection dir =
     (if dir = DirOutbound then ''outbound''
      else if dir = DirInbound then ''inbound''
      else ''unknown'')"

definition appendConnectionState :: "Mutator list \<Rightarrow> ConnectionState \<Rightarrow> Mutator list" where
  "appendConnectionState tags cs =
     (let tags1 = (if Transport cs = []
                   then tags @ [Upsert transportTag ''unknown'']
                   else tags @ [Upsert transportTag (Transport cs)]);
          tags2 = (if Security cs \<noteq> []
                   then tags1 @ [Upsert securityTag (Security cs)]
                   else tags1);
          tags3 = (if StreamMultiplexer cs \<noteq> []
                   then tags2 @ [Upsert muxerTag (StreamMultiplexer cs)]
                   else tags2)
      in tags3)"

text \<open>
  \<^verbatim>\<open>stats.RecordWithTags(ctx, mutators, measurements...)\<close> belongs to the engine: it acts
  on the engine's state and returns an error or \<^verbatim>\<open>nil\<close>. It is a parameter of the
  recorders, over any type \<open>'s\<close> of engine states. The context is always
  \<^verbatim>\<open>context.Background()\<close> and is left out. The recorders are Go functions without a
  result that drop the error of the call, so all that they hand back is the engine's
  state.
\<close>

datatype error = Error string

type_synonym 's RecordWithTags = "Mutator list \<Rightarrow> Measurement list \<Rightarrow> 's \<Rightarrow> error option \<times> 's"

definition recordConnectionOpened ::
  "'s RecordWithTags \<Rightarrow> Direction \<Rightarrow> ConnectionState \<Rightarrow> 's \<Rightarrow> 's" where
  "recordConnectionOpened rwt dir cs s =
     (let tags0 = [];
          tags1 = tags0 @ [Upsert directionTag (getDirection dir)];
          tags2 = appendConnectionState tags1 cs
      in snd (rwt tags2 [M connsOpened 1] s))"

definition recordConnectionClosed ::
  "'s RecordWithTags \<Rightarrow> Direction \<Rightarrow> ConnectionState \<Rightarrow> 's \<Rightarrow> 's" where
  "recordConnectionClosed rwt dir cs s =
     (let tags0 = [];
          tags1 = tags0 @ [Upsert directionTag (getDirection dir)];
          tags2 = appendConnectionState tags1 cs
      in snd (rwt tags2 [M connsClosed 1] s))"

definition recordConnectionDuration ::
  "'s RecordWithTags \<Rightarrow> Direction \<Rightarrow> Duration \<Rightarrow> ConnectionState \<Rightarrow> 's \<Rightarrow> 's" where
  "recordConnectionDuration rwt dir t cs s =
     (let tags0 = [];
          tags1 = tags0 @ [Upsert directionTag (getDirection dir)];
          tags2 = appendConnectionState tags1 cs
      in snd (rwt tags2 [M connDuration (Milliseconds t)] s))"

definition recordHandshakeLatency ::
  "'s RecordWithTags \<Rightarrow> Duration \<Rightarrow> ConnectionState \<Rightarrow> 's \<Rightarrow> 's" where
  "recordHandshakeLatency rwt t cs s =
     (let tags0 = [];
          tags1 = appendConnectionState tags0 cs
      in snd (rwt tags1 [M connHandshakeLatency (Milliseconds t)] s))"

subsection \<open>Reading the submissions\<close>

text \<open>
  Three engines to run the recorders against. \<open>recordingStub\<close> accepts every submission
  and appends it to a log, so that the log after a recorder shows what was submitted and
  how often. \<open>failingStub e\<close> rejects every submission with the error \<open>e\<close> and
  records nothing; \<open>silentStub\<close> accepts every submission and records nothing.
\<close>

type_synonym submission = "Mutator list \<times> Measurement list"

definition recordingStub :: "submission list RecordWithTags" where
  "recordingStub tags ms subs = (None, subs @ [(tags, ms)])"

definition failingStub :: "error \<Rightarrow> 's RecordWithTags" where
  "failingStub e tags ms s = (Some e, s)"

definition silentStub :: "'s RecordWithTags" where
  "silentStub tags ms s = (None, s)"

text \<open>
  The tag set that a list of mutators denotes: \<^verbatim>\<open>Upsert\<close> inserts the key or
  overwrites its value, the mutators acting from left to right on the tag set so far
  (the empty one under \<^verbatim>\<open>context.Background()\<close>).
\<close>

fun applyMutators :: "Mutator list \<Rightarrow> (Key \<rightharpoonup> string) \<Rightarrow> (Key \<rightharpoonup> string)" where
  "applyMutators [] m = m"
| "applyMutators (Upsert k v # ms) m = applyMutators ms (m(k \<mapsto> v))"

definition tagSet :: "Mutator list \<Rightarrow> (Key \<rightharpoonup> string)" where
  "tagSet tags = applyMutators tags Map.empty"

text \<open>
  The connection state of the specification's end-to-end scenario: TCP, secured by TLS,
  multiplexed by yamux.
\<close>

definition tcpTlsYamux :: ConnectionState where
  "tcpTlsYamux = \<lparr>StreamMultiplexer = ''yamux'', Security = ''tls'', Transport = ''tcp''\<rparr>"

section \<open>QUIC transport: the feature configuration\<close>

text \<open>
  \<^verbatim>\<open>
  type Option func(opts *config) error

  func (cfg *config) apply(opts ...Option) error {
      for _, opt := range opts {
          if err := opt(cfg); err != nil {
              return err
          }
      }
      return nil
  }
  \<close>
  An option receives a pointer to the configuration, may write to it and returns an error
  or \<^verbatim>\<open>nil\<close>: in the model it maps the configuration to the error, if any, and the
  configuration it leaves behind. \<^verbatim>\<open>apply\<close> is \<open>config_apply\<close> here; it returns the
  error together with the configuration as the caller finds it afterwards.
\<close>

record config =
  disableReuseport :: bool
  disableDraft29 :: bool
  metrics :: bool

type_synonym Option = "config \<Rightarrow> error option \<times> config"

fun config_apply :: "Option list \<Rightarrow> config \<Rightarrow> error option \<times> config" where
  "config_apply [] cfg = (None, cfg)"
| "config_apply (opt # opts) cfg =
     (case opt cfg of
        (Some err, cfg') \<Rightarrow> (Some err, cfg')
      | (None, cfg') \<Rightarrow> config_apply opts cfg')"

definition DisableReuseport :: Option where
  "DisableReuseport cfg = (None, cfg\<lparr>disableReuseport := True\<rparr>)"

definition DisableDraft29 :: Option where
  "DisableDraft29 cfg = (None, cfg\<lparr>disableDraft29 := True\<rparr>)"

definition WithMetrics :: Option where
  "WithMetrics cfg = (None, cfg\<lparr>metrics := True\<rparr>)"

text \<open>
  For stating what \<open>config_apply\<close> does: \<open>succeeds opts cfg\<close> says that the options, run
  one after the other from \<open>cfg\<close>, all return \<^verbatim>\<open>nil\<close>, and \<open>applied opts cfg\<close> is the
  configuration after running all of them in order.
\<close>

fun succeeds :: "Option list \<Rightarrow> config \<Rightarrow> bool" where
  "succeeds [] cfg = True"
| "succeeds (opt # opts) cfg = (fst (opt cfg) = None \<and> succeeds opts (snd (opt cfg)))"

fun applied :: "Option list \<Rightarrow> config \<Rightarrow> config" where
  "applied [] cfg = cfg"
| "applied (opt # opts) cfg = applied opts (snd (opt cfg))"

text \<open>
  Two values to run \<open>config_apply\<close> on: the configuration with no field set, and an
  option that fails without touching the configuration (none of the three options of
  the source can fail).
\<close>

definition cfg0 :: config where
  "cfg0 = \<lparr>disableReuseport = False, disableDraft29 = False, metrics = False\<rparr>"

definition failingOption :: Option where
  "failingOption cfg = (Some (Error ''bad option''), cfg)"

section \<open>Proofs: the bucket generator\<close>

subsection \<open>The loop computes the doublings below the bound\<close>

lemma MaxFloat64_pos: "0 < MaxFloat64"
  by (simp add: MaxFloat64_def)

lemma flt_PInf_left [simp]: "\<not> flt PInf b"
  by (cases b) simp_all

lemma flt_NaN_left [simp]: "\<not> flt NaN b"
  by (cases b) simp_all

lemma positive_cases: "flt (Fin 0) x \<longleftrightarrow> x = PInf \<or> (\<exists>a. 0 < a \<and> x = Fin a)"
  by (cases x) simp_all

lemma mul2_Fin_pos:
  "0 < a \<Longrightarrow> mul2 (Fin a) = (if 2 * a \<le> MaxFloat64 then Fin (2 * a) else PInf)"
  using MaxFloat64_pos by simp

lemma mul2_positive:
  assumes "flt (Fin 0) x"
  shows "flt (Fin 0) (mul2 x)"
proof -
  from assms consider "x = PInf" | a where "0 < a" and "x = Fin a"
    by (auto simp: positive_cases)
  then show ?thesis
  proof cases
    case 1
    then show ?thesis by simp
  next
    case 2
    then show ?thesis by (simp add: mul2_Fin_pos)
  qed
qed

lemma funpow_mul2_shift: "(mul2 ^^ Suc k) x = (mul2 ^^ k) (mul2 x)"
  by (simp add: funpow_swap1)

lemma funpow_mul2_PInf: "(mul2 ^^ k) PInf = PInf"
  by (induction k) simp_all

lemma funpow_mul2_positive: "flt (Fin 0) x \<Longrightarrow> flt (Fin 0) ((mul2 ^^ k) x)"
  by (induction k) (simp_all add: mul2_positive)

lemma term_value:
  "0 < a \<Longrightarrow> flt ((mul2 ^^ k) (Fin a)) b \<Longrightarrow> (mul2 ^^ k) (Fin a) = Fin (a * 2 ^ k)"
proof (induction k arbitrary: a)
  case 0
  show ?case by simp
next
  case (Suc k)
  show ?case
  proof (cases "2 * a \<le> MaxFloat64")
    case True
    with Suc.prems have "flt ((mul2 ^^ k) (Fin (2 * a))) b"
      by (simp add: funpow_mul2_shift mul2_Fin_pos del: funpow.simps)
    moreover from Suc.prems have "0 < 2 * a" by simp
    ultimately have "(mul2 ^^ k) (Fin (2 * a)) = Fin (2 * a * 2 ^ k)"
      by (rule Suc.IH [rotated])
    with True Suc.prems(1) show ?thesis
      by (simp add: funpow_mul2_shift mul2_Fin_pos mult.assoc del: funpow.simps)
  next
    case False
    with Suc.prems have False
      by (simp add: funpow_mul2_shift mul2_Fin_pos funpow_mul2_PInf del: funpow.simps)
    then show ?thesis ..
  qed
qed

lemma term_below_iff:
  "0 < a \<Longrightarrow> c \<le> MaxFloat64 \<Longrightarrow> flt ((mul2 ^^ k) (Fin a)) (Fin c) \<longleftrightarrow> a * 2 ^ k < c"
proof (induction k arbitrary: a)
  case 0
  show ?case by simp
next
  case (Suc k)
  show ?case
  proof (cases "2 * a \<le> MaxFloat64")
    case True
    from Suc.prems have "0 < 2 * a" by simp
    have "2 * a * 2 ^ k = a * 2 ^ Suc k" by simp
    with Suc.IH [OF \<open>0 < 2 * a\<close> Suc.prems(2)]
    have "flt ((mul2 ^^ k) (Fin (2 * a))) (Fin c) \<longleftrightarrow> a * 2 ^ Suc k < c"
      by (simp only:)
    with True Suc.prems(1) show ?thesis
      by (simp add: funpow_mul2_shift mul2_Fin_pos del: funpow.simps power_Suc)
  next
    case False
    have "2 * a \<le> 2 * a * 2 ^ k"
      using Suc.prems(1) by simp
    with False Suc.prems(2) have "\<not> a * 2 ^ Suc k < c"
      by (simp add: mult.assoc)
    with False Suc.prems(1) show ?thesis
      by (simp add: funpow_mul2_shift mul2_Fin_pos funpow_mul2_PInf del: funpow.simps)
  qed
qed

lemma term_overflows:
  "0 < a \<Longrightarrow> MaxFloat64 < a * 2 ^ k \<Longrightarrow> (mul2 ^^ Suc k) (Fin a) = PInf"
proof (induction k arbitrary: a)
  case 0
  then show ?case by (simp add: mul2_Fin_pos)
next
  case (Suc k)
  show ?case
  proof (cases "2 * a \<le> MaxFloat64")
    case True
    from Suc.prems have "0 < 2 * a" and "MaxFloat64 < 2 * a * 2 ^ k"
      by (simp_all add: mult.assoc)
    from Suc.IH [OF this] True Suc.prems(1) show ?thesis
      by (simp only: funpow_mul2_shift [of "Suc k"] mul2_Fin_pos if_True)
  next
    case False
    with Suc.prems(1) show ?thesis
      by (simp only: funpow_mul2_shift [of "Suc k"] mul2_Fin_pos if_False funpow_mul2_PInf)
  qed
qed

lemma doubling_crosses:
  assumes "flt (Fin 0) x"
  shows "\<exists>k. \<not> flt ((mul2 ^^ k) x) b"
proof -
  from assms consider "x = PInf" | a where "0 < a" and "x = Fin a"
    by (auto simp: positive_cases)
  then show ?thesis
  proof cases
    case 1
    then have "\<not> flt ((mul2 ^^ 0) x) b" by simp
    then show ?thesis by blast
  next
    case 2
    obtain k :: nat where k: "MaxFloat64 / a < of_nat k"
      using reals_Archimedean2 by blast
    have "of_nat k < (2::real) ^ k"
      by (rule of_nat_less_two_power)
    with k have "MaxFloat64 / a < 2 ^ k" by linarith
    with 2(1) have "MaxFloat64 < a * 2 ^ k"
      by (simp add: pos_divide_less_eq mult.commute)
    from term_overflows [OF 2(1) this] 2(2) have "\<not> flt ((mul2 ^^ Suc k) x) b"
      by (simp del: funpow.simps)
    then show ?thesis by blast
  qed
qed

lemma stays_above:
  assumes "flt (Fin 0) x" and "\<not> flt x b"
  shows "\<not> flt (mul2 x) b"
proof -
  from assms(1) consider "x = PInf" | a where "0 < a" and "x = Fin a"
    by (auto simp: positive_cases)
  then show ?thesis
  proof cases
    case 1
    then show ?thesis by simp
  next
    case 2
    with assms(2) show ?thesis
      by (cases b) (auto simp: mul2_Fin_pos)
  qed
qed

lemma stays_above_funpow:
  assumes "flt (Fin 0) x" and "\<not> flt ((mul2 ^^ n) x) b" and "n \<le> j"
  shows "\<not> flt ((mul2 ^^ j) x) b"
  using assms(3)
proof (induction j)
  case 0
  with assms(2) show ?case by simp
next
  case (Suc j)
  show ?case
  proof (cases "n = Suc j")
    case True
    with assms(2) show ?thesis by simp
  next
    case False
    with Suc.prems have "n \<le> j" by simp
    then have "\<not> flt ((mul2 ^^ j) x) b" by (rule Suc.IH)
    with stays_above [OF funpow_mul2_positive [OF assms(1), of j], of b]
    show ?thesis by simp
  qed
qed

lemma doublings_Suc_shift: "doublings m (Suc n) = m # doublings (mul2 m) n"
proof -
  have "[0..<Suc n] = 0 # map Suc [0..<n]"
    by (simp add: upt_conv_Cons map_Suc_upt del: upt_Suc)
  then show ?thesis
    by (simp add: doublings_def comp_def funpow_swap1 del: upt_Suc)
qed

lemma expLoop_unfold_below:
  "flt d (mul2 mx) \<Longrightarrow> expLoop d mx v = expLoop (mul2 d) mx (v @ [d])"
  by (subst expLoop.simps) simp

lemma expLoop_unfold_stop: "\<not> flt d (mul2 mx) \<Longrightarrow> expLoop d mx v = Some v"
  by (subst expLoop.simps) simp

lemma expLoop_run:
  "(\<forall>i<n. flt ((mul2 ^^ i) d) (mul2 mx)) \<Longrightarrow> \<not> flt ((mul2 ^^ n) d) (mul2 mx)
   \<Longrightarrow> expLoop d mx v = Some (v @ doublings d n)"
proof (induction n arbitrary: d v)
  case 0
  then have "\<not> flt d (mul2 mx)" by simp
  then show ?case
    by (simp add: expLoop_unfold_stop doublings_def)
next
  case (Suc n)
  from Suc.prems(1) have "flt ((mul2 ^^ 0) d) (mul2 mx)" by blast
  then have here: "flt d (mul2 mx)" by simp
  have below: "\<forall>i<n. flt ((mul2 ^^ i) (mul2 d)) (mul2 mx)"
  proof (intro allI impI)
    fix i assume "i < n"
    then have "flt ((mul2 ^^ Suc i) d) (mul2 mx)" using Suc.prems(1) by blast
    then show "flt ((mul2 ^^ i) (mul2 d)) (mul2 mx)" unfolding funpow_mul2_shift .
  qed
  have stop: "\<not> flt ((mul2 ^^ n) (mul2 d)) (mul2 mx)"
    using Suc.prems(2) unfolding funpow_mul2_shift .
  have "expLoop d mx v = expLoop (mul2 d) mx (v @ [d])"
    using here by (rule expLoop_unfold_below)
  also have "\<dots> = Some ((v @ [d]) @ doublings (mul2 d) n)"
    by (rule Suc.IH [OF below stop])
  finally show ?case
    by (simp add: doublings_Suc_shift)
qed

lemma exponentialDistribution_shape:
  assumes "flt (Fin 0) mn"
  shows "\<exists>n. exponentialDistribution mn mx = Some (doublings mn n)
           \<and> (\<forall>i. flt ((mul2 ^^ i) mn) (mul2 mx) \<longleftrightarrow> i < n)"
proof -
  define P where "P k \<longleftrightarrow> \<not> flt ((mul2 ^^ k) mn) (mul2 mx)" for k
  from doubling_crosses [OF assms, of "mul2 mx"] have "\<exists>k. P k" by (simp add: P_def)
  then obtain n where "P n" and "\<forall>i<n. \<not> P i"
    by (metis exists_least_iff)
  then have below: "\<forall>i<n. flt ((mul2 ^^ i) mn) (mul2 mx)"
    and stop: "\<not> flt ((mul2 ^^ n) mn) (mul2 mx)"
    by (simp_all add: P_def)
  have "exponentialDistribution mn mx = Some (doublings mn n)"
    unfolding exponentialDistribution_def
    using expLoop_run [OF below stop, of "[]"] by simp
  moreover have "flt ((mul2 ^^ i) mn) (mul2 mx) \<longleftrightarrow> i < n" for i
  proof
    assume lt: "flt ((mul2 ^^ i) mn) (mul2 mx)"
    show "i < n"
    proof (rule ccontr)
      assume "\<not> i < n"
      then have "n \<le> i" by simp
      from stays_above_funpow [OF assms stop this] lt show False by blast
    qed
  next
    assume "i < n"
    with below show "flt ((mul2 ^^ i) mn) (mul2 mx)" by blast
  qed
  ultimately show ?thesis by blast
qed

lemma doublings_finite:
  assumes "0 < a" and "\<forall>i<n. flt ((mul2 ^^ i) (Fin a)) b"
  shows "doublings (Fin a) n = map (\<lambda>i. Fin (a * 2 ^ i)) [0..<n]"
  unfolding doublings_def
proof (rule map_cong [OF refl])
  fix i assume "i \<in> set [0..<n]"
  then have "flt ((mul2 ^^ i) (Fin a)) b" using assms(2) by simp
  with assms(1) show "(mul2 ^^ i) (Fin a) = Fin (a * 2 ^ i)" by (rule term_value)
qed

lemma doublings_last: "0 < n \<Longrightarrow> last (doublings m n) = (mul2 ^^ (n - 1)) m"
  by (simp add: doublings_def last_map del: funpow.simps)

lemma doublings_hd: "0 < n \<Longrightarrow> hd (doublings m n) = m"
  by (cases n) (simp_all add: doublings_Suc_shift)

lemma below_double:
  assumes "flt (Fin 0) mn" and "flt mn mx"
  shows "flt mn (mul2 mx)"
proof -
  from assms obtain a where a: "0 < a" "mn = Fin a"
    by (auto simp: positive_cases)
  show ?thesis
  proof (cases mx)
    case (Fin b)
    with assms(2) a have "a < b" by simp
    with a Fin show ?thesis by (simp add: mul2_Fin_pos)
  next
    case PInf
    with a show ?thesis by simp
  next
    case NInf
    with assms(2) show ?thesis by simp
  next
    case NaN
    with assms(2) show ?thesis by simp
  qed
qed

lemma exponentialDistribution_exact:
  assumes "0 < a" and "0 < b" and "2 * b \<le> MaxFloat64"
  shows "\<exists>n. exponentialDistribution (Fin a) (Fin b) = Some (map (\<lambda>i. Fin (a * 2 ^ i)) [0..<n])
           \<and> (\<forall>i. a * 2 ^ i < 2 * b \<longleftrightarrow> i < n)"
proof -
  have pos: "flt (Fin 0) (Fin a)" using assms(1) by simp
  have dbl: "mul2 (Fin b) = Fin (2 * b)" using assms(2,3) by (simp add: mul2_Fin_pos)
  from exponentialDistribution_shape [OF pos, of "Fin b"]
  obtain n where run: "exponentialDistribution (Fin a) (Fin b) = Some (doublings (Fin a) n)"
    and cnt: "\<forall>i. flt ((mul2 ^^ i) (Fin a)) (Fin (2 * b)) \<longleftrightarrow> i < n"
    unfolding dbl by blast
  from cnt have "\<forall>i<n. flt ((mul2 ^^ i) (Fin a)) (Fin (2 * b))" by blast
  from doublings_finite [OF assms(1) this] run
  have "exponentialDistribution (Fin a) (Fin b) = Some (map (\<lambda>i. Fin (a * 2 ^ i)) [0..<n])"
    by simp
  moreover have "\<forall>i. a * 2 ^ i < 2 * b \<longleftrightarrow> i < n"
    using cnt term_below_iff [OF assms(1,3)] by simp
  ultimately show ?thesis by blast
qed

lemma flt_transp: "transp flt"
proof (rule transpI)
  fix x y z assume "flt x y" and "flt y z"
  then show "flt x z"
    by (cases x; cases y; cases z) simp_all
qed

lemma doublings_strict:
  assumes "flt (Fin 0) m" and "\<forall>i<n. flt ((mul2 ^^ i) m) b"
  shows "sorted_wrt flt (doublings m n)"
proof -
  from assms(1) consider "m = PInf" | a where "0 < a" and "m = Fin a"
    by (auto simp: positive_cases)
  then show ?thesis
  proof cases
    case 1
    have "n = 0"
    proof (rule ccontr)
      assume "n \<noteq> 0"
      then have "flt ((mul2 ^^ 0) m) b" using assms(2) by blast
      with 1 show False by simp
    qed
    then show ?thesis by (simp add: doublings_def)
  next
    case 2
    have "a * 2 ^ i < a * 2 ^ j" if "i < j" for i j :: nat
      using 2(1) that by simp
    then have "sorted_wrt flt (map (\<lambda>i. Fin (a * 2 ^ i)) [0..<n])"
      by (simp add: sorted_wrt_map sorted_wrt_iff_nth_less)
    with doublings_finite [OF 2(1), of n b] assms(2) 2(2) show ?thesis by simp
  qed
qed

text \<open>
  From a \<open>min\<close> that is zero or negative (\<open>-Inf\<close> included) and a positive \<open>max\<close> the
  loop variable stays below \<open>2\<cdot>max\<close> for ever, and the loop does not return.
\<close>

lemma expLoop_returns_only_if:
  assumes ret: "expLoop d mx v = Some y"
  shows "\<not> ((flt d (Fin 0) \<or> d = Fin 0) \<and> flt (Fin 0) mx)"
proof (rule expLoop.raw_induct
    [where P = "\<lambda>d mx v y. \<not> ((flt d (Fin 0) \<or> d = Fin 0) \<and> flt (Fin 0) mx)", OF _ ret])
  fix f :: "float64 \<Rightarrow> float64 \<Rightarrow> float64 list \<Rightarrow> float64 list option"
    and d mx :: float64 and v y :: "float64 list"
  assume IH: "\<And>d mx v y. f d mx v = Some y \<Longrightarrow> \<not> ((flt d (Fin 0) \<or> d = Fin 0) \<and> flt (Fin 0) mx)"
    and step: "(if flt d (mul2 mx) then f (mul2 d) mx (v @ [d]) else Some v) = Some y"
  show "\<not> ((flt d (Fin 0) \<or> d = Fin 0) \<and> flt (Fin 0) mx)"
  proof
    assume a: "(flt d (Fin 0) \<or> d = Fin 0) \<and> flt (Fin 0) mx"
    then have "flt (Fin 0) (mul2 mx)" by (simp add: mul2_positive)
    then consider "mul2 mx = PInf" | c where "0 < c" and "mul2 mx = Fin c"
      by (auto simp: positive_cases)
    then have enter: "flt d (mul2 mx)"
    proof cases
      case 1
      with a show ?thesis by (cases d) auto
    next
      case 2
      with a show ?thesis by (cases d) auto
    qed
    have stay: "flt (mul2 d) (Fin 0) \<or> mul2 d = Fin 0"
      using a MaxFloat64_pos by (cases d) auto
    from step enter have "f (mul2 d) mx (v @ [d]) = Some y" by simp
    from IH [OF this] stay a show False by blast
  qed
qed

lemma expLoop_diverges:
  "flt d (Fin 0) \<or> d = Fin 0 \<Longrightarrow> flt (Fin 0) mx \<Longrightarrow> expLoop d mx v = None"
  using expLoop_returns_only_if [of d mx v] by (cases "expLoop d mx v") auto

lemma run_250_500: "exponentialDistribution (Fin 250) (Fin 500) = Some [Fin 250, Fin 500]"
  by (simp add: exponentialDistribution_def expLoop_unfold_below expLoop_unfold_stop MaxFloat64_def)

lemma run_1_4: "exponentialDistribution (Fin 1) (Fin 4) = Some [Fin 1, Fin 2, Fin 4]"
  by (simp add: exponentialDistribution_def expLoop_unfold_below expLoop_unfold_stop MaxFloat64_def)

text \<open>
  Where doubling overflows the loop stops at the overflow: \<open>2\<cdot>max\<close> is \<open>+Inf\<close> here,
  and so is the double of the first term.
\<close>

lemma run_overflow:
  "exponentialDistribution (Fin (2 ^ 1023)) (Fin (3 * 2 ^ 1022)) = Some [Fin (2 ^ 1023)]"
  by (simp add: exponentialDistribution_def expLoop_unfold_below expLoop_unfold_stop MaxFloat64_def)

lemma run_NaN_PInf:
  "exponentialDistribution (Fin 1) NaN = Some [] \<and> exponentialDistribution PInf PInf = Some []"
  by (simp add: exponentialDistribution_def expLoop_unfold_stop)

subsection \<open>Claims about the bucket generator\<close>

text \<open>
  Claim C1. For positive \<open>min\<close> and \<open>max\<close> the generator returns, and what it returns is
  the list of the terms \<open>min, 2\<cdot>min, 4\<cdot>min, \<dots>\<close> of the indices \<open>0, \<dots>, n - 1\<close> in
  this order, where the terms with an index below \<open>n\<close> are exactly the terms strictly
  less than \<open>2\<cdot>max\<close>. This holds of the terms and of \<open>2\<cdot>max\<close> as the program computes
  them, for all positive arguments, \<open>+Inf\<close> included (first part); and when \<open>2\<cdot>max\<close>
  does not overflow, the terms returned are the exact numbers \<open>min\<cdot>2\<^sup>i\<close> and the
  comparison is that of the exact numbers (second part). In particular
  \<open>exponentialDistribution(250, 500) = [250, 500]\<close>.
\<close>

theorem exponentialDistribution_terms:
  "(flt (Fin 0) mn \<and> flt (Fin 0) mx \<longrightarrow>
      (\<exists>n. exponentialDistribution mn mx = Some (map (\<lambda>i. (mul2 ^^ i) mn) [0..<n])
            \<and> (\<forall>i. flt ((mul2 ^^ i) mn) (mul2 mx) \<longleftrightarrow> i < n)))
   \<and> (0 < a \<and> 0 < b \<and> 2 * b \<le> MaxFloat64 \<longrightarrow>
      (\<exists>n. exponentialDistribution (Fin a) (Fin b) = Some (map (\<lambda>i. Fin (a * 2 ^ i)) [0..<n])
            \<and> (\<forall>i. a * 2 ^ i < 2 * b \<longleftrightarrow> i < n)))
   \<and> exponentialDistribution (Fin 250) (Fin 500) = Some [Fin 250, Fin 500]"
proof (intro conjI impI)
  assume "flt (Fin 0) mn \<and> flt (Fin 0) mx"
  then have "flt (Fin 0) mn" ..
  from exponentialDistribution_shape [OF this, of mx]
  show "\<exists>n. exponentialDistribution mn mx = Some (map (\<lambda>i. (mul2 ^^ i) mn) [0..<n])
            \<and> (\<forall>i. flt ((mul2 ^^ i) mn) (mul2 mx) \<longleftrightarrow> i < n)"
    by (simp only: doublings_def)
next
  assume "0 < a \<and> 0 < b \<and> 2 * b \<le> MaxFloat64"
  then have "0 < a" and "0 < b" and "2 * b \<le> MaxFloat64" by simp_all
  then show "\<exists>n. exponentialDistribution (Fin a) (Fin b) = Some (map (\<lambda>i. Fin (a * 2 ^ i)) [0..<n])
            \<and> (\<forall>i. a * 2 ^ i < 2 * b \<longleftrightarrow> i < n)"
    by (rule exponentialDistribution_exact)
next
  show "exponentialDistribution (Fin 250) (Fin 500) = Some [Fin 250, Fin 500]"
    by (rule run_250_500)
qed

theorem exponentialDistribution_terms_witness:
  "flt (Fin 0) (Fin 250) \<and> flt (Fin 0) (Fin 500)
   \<and> (\<exists>n. exponentialDistribution (Fin 250) (Fin 500) = Some (map (\<lambda>i. (mul2 ^^ i) (Fin 250)) [0..<n])
            \<and> (\<forall>i. flt ((mul2 ^^ i) (Fin 250)) (mul2 (Fin 500)) \<longleftrightarrow> i < n))
   \<and> (0::real) < 250 \<and> (0::real) < 500 \<and> 2 * 500 \<le> MaxFloat64
   \<and> (\<exists>n. exponentialDistribution (Fin 250) (Fin 500) = Some (map (\<lambda>i. Fin (250 * 2 ^ i)) [0..<n])
            \<and> (\<forall>i. (250::real) * 2 ^ i < 2 * 500 \<longleftrightarrow> i < n))
   \<and> exponentialDistribution (Fin 250) (Fin 500) = Some [Fin 250, Fin 500]"
proof -
  have h1: "flt (Fin 0) (Fin 250) \<and> flt (Fin 0) (Fin 500)" by simp
  have h2: "(0::real) < 250 \<and> (0::real) < 500 \<and> 2 * 500 \<le> MaxFloat64"
    by (simp add: MaxFloat64_def)
  note t = exponentialDistribution_terms [of "Fin 250" "Fin 500" 250 500]
  from t h1 have c1: "\<exists>n. exponentialDistribution (Fin 250) (Fin 500) = Some (map (\<lambda>i. (mul2 ^^ i) (Fin 250)) [0..<n])
            \<and> (\<forall>i. flt ((mul2 ^^ i) (Fin 250)) (mul2 (Fin 500)) \<longleftrightarrow> i < n)"
    by blast
  from t h2 have c2: "\<exists>n. exponentialDistribution (Fin 250) (Fin 500) = Some (map (\<lambda>i. Fin (250 * 2 ^ i)) [0..<n])
            \<and> (\<forall>i. (250::real) * 2 ^ i < 2 * 500 \<longleftrightarrow> i < n)"
    by blast
  from t have c3: "exponentialDistribution (Fin 250) (Fin 500) = Some [Fin 250, Fin 500]"
    by blast
  from h1 h2 c1 c2 c3 show ?thesis by blast
qed

text \<open>
  Claim C2, as stated: for positive \<open>min < max\<close> the last element of the returned sequence
  is the first term that reaches or exceeds \<open>2\<cdot>max\<close>. This fails: for \<open>min = 250\<close> and
  \<open>max = 500\<close> the loop returns \<open>[250, 500]\<close>, whose last element \<open>500\<close> is strictly
  below \<open>2\<cdot>max = 1000\<close>.
\<close>

theorem exponentialDistribution_last_counterexample:
  "exponentialDistribution (Fin 250) (Fin 500) = Some [Fin 250, Fin 500]
   \<and> mul2 (Fin 500) = Fin 1000
   \<and> flt (last [Fin 250, Fin 500]) (mul2 (Fin 500))"
  by (simp add: exponentialDistribution_def expLoop_unfold_below expLoop_unfold_stop MaxFloat64_def)

text \<open>
  Claim C2, amended: for positive \<open>min < max\<close> the generator returns a non-empty sequence
  of the terms \<open>min, 2\<cdot>min, 4\<cdot>min, \<dots>\<close> that starts with \<open>min\<close>; every element is
  strictly less than \<open>2\<cdot>max\<close>, and the double of the last element is not: the last
  element is the last term below \<open>2\<cdot>max\<close>, and the term that first reaches or exceeds
  \<open>2\<cdot>max\<close> is not part of the sequence. This holds of the products as the program
  computes them (first part); when \<open>2\<cdot>max\<close> does not overflow, the elements are the
  exact numbers \<open>min\<cdot>2\<^sup>i\<close> for \<open>i < n\<close>, all below \<open>2\<cdot>max\<close>, and the last of them,
  \<open>min\<cdot>2\<^sup>n\<^sup>-\<^sup>1\<close>, satisfies \<open>last < 2\<cdot>max \<le> 2\<cdot>last\<close> (second part).
\<close>

theorem exponentialDistribution_last_below:
  "(flt (Fin 0) mn \<and> flt mn mx \<longrightarrow>
      (\<exists>v. exponentialDistribution mn mx = Some v \<and> v \<noteq> [] \<and> hd v = mn
            \<and> (\<exists>n. v = map (\<lambda>i. (mul2 ^^ i) mn) [0..<n])
            \<and> (\<forall>x\<in>set v. flt x (mul2 mx))
            \<and> \<not> flt (mul2 (last v)) (mul2 mx)))
   \<and> (0 < a \<and> a < b \<and> 2 * b \<le> MaxFloat64 \<longrightarrow>
      (\<exists>n. 0 < n
            \<and> exponentialDistribution (Fin a) (Fin b) = Some (map (\<lambda>i. Fin (a * 2 ^ i)) [0..<n])
            \<and> (\<forall>i<n. a * 2 ^ i < 2 * b)
            \<and> a * 2 ^ (n - 1) < 2 * b \<and> 2 * b \<le> 2 * (a * 2 ^ (n - 1))))"
proof (intro conjI impI)
  assume h: "flt (Fin 0) mn \<and> flt mn mx"
  then have pos: "flt (Fin 0) mn" and lt: "flt mn mx" by simp_all
  from exponentialDistribution_shape [OF pos, of mx]
  obtain n where run: "exponentialDistribution mn mx = Some (doublings mn n)"
    and cnt: "\<forall>i. flt ((mul2 ^^ i) mn) (mul2 mx) \<longleftrightarrow> i < n"
    by blast
  from below_double [OF pos lt] have "flt ((mul2 ^^ 0) mn) (mul2 mx)" by simp
  with cnt have n: "0 < n" by blast
  then have ne: "doublings mn n \<noteq> []" by (simp add: doublings_def)
  have shape: "\<exists>k. doublings mn n = map (\<lambda>i. (mul2 ^^ i) mn) [0..<k]"
    unfolding doublings_def by blast
  have all: "\<forall>x\<in>set (doublings mn n). flt x (mul2 mx)"
    using cnt by (auto simp: doublings_def simp del: funpow.simps)
  from n obtain k where k: "n = Suc k" by (cases n) simp_all
  have "last (doublings mn (Suc k)) = (mul2 ^^ k) mn"
    using doublings_last [of "Suc k" mn] by simp
  then have "mul2 (last (doublings mn n)) = (mul2 ^^ n) mn"
    unfolding k by simp
  then have "\<not> flt (mul2 (last (doublings mn n))) (mul2 mx)"
    using cnt by simp
  with run ne shape all doublings_hd [OF n, of mn]
  show "\<exists>v. exponentialDistribution mn mx = Some v \<and> v \<noteq> [] \<and> hd v = mn
            \<and> (\<exists>n. v = map (\<lambda>i. (mul2 ^^ i) mn) [0..<n])
            \<and> (\<forall>x\<in>set v. flt x (mul2 mx))
            \<and> \<not> flt (mul2 (last v)) (mul2 mx)"
    by blast
next
  assume "0 < a \<and> a < b \<and> 2 * b \<le> MaxFloat64"
  then have a: "0 < a" and ab: "a < b" and b: "2 * b \<le> MaxFloat64" by simp_all
  from a ab have "0 < b" by simp
  from exponentialDistribution_exact [OF a this b]
  obtain n where run: "exponentialDistribution (Fin a) (Fin b) = Some (map (\<lambda>i. Fin (a * 2 ^ i)) [0..<n])"
    and cnt: "\<forall>i. a * 2 ^ i < 2 * b \<longleftrightarrow> i < n"
    by blast
  from a ab have "a * 2 ^ 0 < 2 * b" by simp
  with cnt have n: "0 < n" by blast
  with cnt have below: "a * 2 ^ (n - 1) < 2 * b" by simp
  from cnt have "\<not> a * 2 ^ n < 2 * b" by blast
  moreover from n have "a * 2 ^ n = 2 * (a * 2 ^ (n - 1))"
    by (cases n) simp_all
  ultimately have above: "2 * b \<le> 2 * (a * 2 ^ (n - 1))" by simp
  from cnt have "\<forall>i<n. a * 2 ^ i < 2 * b" by blast
  with n run below above
  show "\<exists>n. 0 < n
            \<and> exponentialDistribution (Fin a) (Fin b) = Some (map (\<lambda>i. Fin (a * 2 ^ i)) [0..<n])
            \<and> (\<forall>i<n. a * 2 ^ i < 2 * b)
            \<and> a * 2 ^ (n - 1) < 2 * b \<and> 2 * b \<le> 2 * (a * 2 ^ (n - 1))"
    by blast
qed

theorem exponentialDistribution_last_below_witness:
  "flt (Fin 0) (Fin 250) \<and> flt (Fin 250) (Fin 500)
   \<and> (\<exists>v. exponentialDistribution (Fin 250) (Fin 500) = Some v \<and> v \<noteq> [] \<and> hd v = Fin 250
            \<and> (\<exists>n. v = map (\<lambda>i. (mul2 ^^ i) (Fin 250)) [0..<n])
            \<and> (\<forall>x\<in>set v. flt x (mul2 (Fin 500)))
            \<and> \<not> flt (mul2 (last v)) (mul2 (Fin 500)))
   \<and> (0::real) < 250 \<and> (250::real) < 500 \<and> 2 * 500 \<le> MaxFloat64
   \<and> (\<exists>n. 0 < n
            \<and> exponentialDistribution (Fin 250) (Fin 500) = Some (map (\<lambda>i. Fin (250 * 2 ^ i)) [0..<n])
            \<and> (\<forall>i<n. (250::real) * 2 ^ i < 2 * 500)
            \<and> (250::real) * 2 ^ (n - 1) < 2 * 500 \<and> 2 * 500 \<le> 2 * ((250::real) * 2 ^ (n - 1)))
   \<and> exponentialDistribution (Fin 250) (Fin 500) = Some [Fin 250, Fin 500]"
proof -
  have h1: "flt (Fin 0) (Fin 250) \<and> flt (Fin 250) (Fin 500)" by simp
  have h2: "(0::real) < 250 \<and> (250::real) < 500 \<and> 2 * 500 \<le> MaxFloat64"
    by (simp add: MaxFloat64_def)
  note t = exponentialDistribution_last_below [of "Fin 250" "Fin 500" 250 500]
  from t h1 have c1: "\<exists>v. exponentialDistribution (Fin 250) (Fin 500) = Some v \<and> v \<noteq> [] \<and> hd v = Fin 250
            \<and> (\<exists>n. v = map (\<lambda>i. (mul2 ^^ i) (Fin 250)) [0..<n])
            \<and> (\<forall>x\<in>set v. flt x (mul2 (Fin 500)))
            \<and> \<not> flt (mul2 (last v)) (mul2 (Fin 500))"
    by blast
  from t h2 have c2: "\<exists>n. 0 < n
            \<and> exponentialDistribution (Fin 250) (Fin 500) = Some (map (\<lambda>i. Fin (250 * 2 ^ i)) [0..<n])
            \<and> (\<forall>i<n. (250::real) * 2 ^ i < 2 * 500)
            \<and> (250::real) * 2 ^ (n - 1) < 2 * 500 \<and> 2 * 500 \<le> 2 * ((250::real) * 2 ^ (n - 1))"
    by blast
  from h1 h2 c1 c2 run_250_500 show ?thesis by blast
qed

text \<open>
  Claim C3, as stated: for every \<open>min > 0\<close> and any \<open>max\<close> the sequence has at least one
  element. This fails when \<open>2\<cdot>max \<le> min\<close>: for \<open>min = 4\<close> and \<open>max = 1\<close> the loop
  condition \<open>4 < 2\<close> is false at once and the empty sequence is returned.
\<close>

theorem exponentialDistribution_nonempty_counterexample:
  "exponentialDistribution (Fin 4) (Fin 1) = Some [] \<and> \<not> 1 \<le> length ([] :: float64 list)"
  by (simp add: exponentialDistribution_def expLoop_unfold_stop MaxFloat64_def)

text \<open>
  Claim C3, amended: for every \<open>min > 0\<close> (\<open>+Inf\<close> included) and any \<open>max\<close> (finite,
  infinite or NaN) the generating loop terminates and the sequence it returns is strictly
  increasing; the sequence has at least one element exactly when \<open>min < 2\<cdot>max\<close>.
\<close>

theorem exponentialDistribution_increasing:
  assumes "flt (Fin 0) mn"
  shows "\<exists>v. exponentialDistribution mn mx = Some v \<and> sorted_wrt flt v
            \<and> (v \<noteq> [] \<longleftrightarrow> flt mn (mul2 mx))"
proof -
  from exponentialDistribution_shape [OF assms, of mx]
  obtain n where run: "exponentialDistribution mn mx = Some (doublings mn n)"
    and cnt: "\<forall>i. flt ((mul2 ^^ i) mn) (mul2 mx) \<longleftrightarrow> i < n"
    by blast
  from cnt [rule_format, of 0] have "flt mn (mul2 mx) \<longleftrightarrow> 0 < n" by simp
  moreover have "doublings mn n \<noteq> [] \<longleftrightarrow> 0 < n" by (simp add: doublings_def)
  moreover from cnt have "\<forall>i<n. flt ((mul2 ^^ i) mn) (mul2 mx)" by blast
  then have "sorted_wrt flt (doublings mn n)"
    by (rule doublings_strict [OF assms])
  ultimately show ?thesis
    using run by simp
qed

theorem exponentialDistribution_increasing_witness:
  "flt (Fin 0) (Fin 1)
   \<and> (\<exists>v. exponentialDistribution (Fin 1) (Fin 4) = Some v \<and> sorted_wrt flt v
            \<and> (v \<noteq> [] \<longleftrightarrow> flt (Fin 1) (mul2 (Fin 4))))
   \<and> exponentialDistribution (Fin 1) (Fin 4) = Some [Fin 1, Fin 2, Fin 4]
   \<and> sorted_wrt flt [Fin 1, Fin 2, Fin 4]"
proof -
  have h: "flt (Fin 0) (Fin 1)" by simp
  have s: "sorted_wrt flt [Fin 1, Fin 2, Fin 4]" by simp
  from exponentialDistribution_increasing [OF h, of "Fin 4"] h run_1_4 s show ?thesis by blast
qed

section \<open>Proofs: tagger, recorders and views\<close>

lemmas key_defs = directionTag_def transportTag_def securityTag_def muxerTag_def

lemma applyMutators_append:
  "applyMutators (xs @ ys) m = applyMutators ys (applyMutators xs m)"
proof (induction xs arbitrary: m)
  case Nil
  show ?case by simp
next
  case (Cons x xs)
  obtain k v where x: "x = Upsert k v" by (cases x)
  show ?case
    unfolding x by (simp only: append_Cons applyMutators.simps Cons.IH)
qed

lemma tagSet_Nil: "tagSet [] = Map.empty"
  by (simp add: tagSet_def)

lemma tagSet_single: "tagSet [Upsert k v] = [k \<mapsto> v]"
  by (simp add: tagSet_def)

lemma getDirection_cases:
  "getDirection dir = ''outbound'' \<or> getDirection dir = ''inbound'' \<or> getDirection dir = ''unknown''"
  by (simp add: getDirection_def)

lemma tagSet_appendConnectionState:
  "tagSet (appendConnectionState tags cs) =
     (\<lambda>k. if k = muxerTag \<and> StreamMultiplexer cs \<noteq> [] then Some (StreamMultiplexer cs)
          else if k = securityTag \<and> Security cs \<noteq> [] then Some (Security cs)
          else if k = transportTag then Some (if Transport cs = [] then ''unknown'' else Transport cs)
          else tagSet tags k)"
  by (auto simp: tagSet_def appendConnectionState_def Let_def applyMutators_append key_defs fun_eq_iff)

lemma recorders_submit:
  "recordConnectionOpened rwt dir cs s =
     snd (rwt (appendConnectionState [Upsert directionTag (getDirection dir)] cs) [M connsOpened 1] s)"
  "recordConnectionClosed rwt dir cs s =
     snd (rwt (appendConnectionState [Upsert directionTag (getDirection dir)] cs) [M connsClosed 1] s)"
  "recordConnectionDuration rwt dir t cs s =
     snd (rwt (appendConnectionState [Upsert directionTag (getDirection dir)] cs)
            [M connDuration (Milliseconds t)] s)"
  "recordHandshakeLatency rwt t cs s =
     snd (rwt (appendConnectionState [] cs) [M connHandshakeLatency (Milliseconds t)] s)"
  by (simp_all add: recordConnectionOpened_def recordConnectionClosed_def
      recordConnectionDuration_def recordHandshakeLatency_def)

lemma tags_tcp:
  "appendConnectionState [Upsert directionTag (getDirection DirOutbound)] tcpTlsYamux
   = [Upsert (Key ''dir'') ''outbound'', Upsert (Key ''transport'') ''tcp'',
      Upsert (Key ''security'') ''tls'', Upsert (Key ''muxer'') ''yamux'']"
  by (simp add: appendConnectionState_def tcpTlsYamux_def getDirection_def key_defs)

lemma ms1500: "Milliseconds (1500 * Millisecond) = 1500"
  by (simp add: Milliseconds_def Millisecond_def)

lemma trunc_bounds:
  fixes a c :: int
  assumes "0 < c" and "0 \<le> a"
  shows "\<bar>a - a div c * c\<bar> < c \<and> \<bar>a div c * c\<bar> \<le> a"
proof -
  have r: "a - a div c * c = a mod c"
    by (simp add: minus_div_mult_eq_mod)
  have r0: "0 \<le> a mod c" and r1: "a mod c < c"
    using assms(1) by simp_all
  have "0 \<le> a div c"
    using assms by (simp add: pos_imp_zdiv_nonneg_iff)
  then have q0: "0 \<le> a div c * c"
    using assms(1) by simp
  from r r0 have "a div c * c \<le> a" by linarith
  with q0 r r0 r1 show ?thesis by simp
qed

lemma Milliseconds_trunc:
  "\<bar>t - Milliseconds t * 1000000\<bar> < 1000000 \<and> \<bar>Milliseconds t * 1000000\<bar> \<le> \<bar>t\<bar>"
proof (cases "0 \<le> t")
  case True
  with trunc_bounds [of 1000000 t] show ?thesis
    by (simp add: Milliseconds_def)
next
  case False
  then have neg: "0 \<le> - t" by simp
  have "t - (- ((- t) div 1000000)) * 1000000 = - ((- t) - (- t) div 1000000 * 1000000)"
    by simp
  then have "\<bar>t - (- ((- t) div 1000000)) * 1000000\<bar> = \<bar>(- t) - (- t) div 1000000 * 1000000\<bar>"
    by (simp only: abs_minus_cancel)
  moreover have "\<bar>(- ((- t) div 1000000)) * 1000000\<bar> = \<bar>(- t) div 1000000 * 1000000\<bar>"
    by simp
  ultimately show ?thesis
    using trunc_bounds [of 1000000 "- t"] neg False
    by (simp only: Milliseconds_def if_False) simp
qed

lemma week_ms: "Milliseconds (7 * 24 * Hour) = 604800000"
  by (simp add: Milliseconds_def Hour_def Millisecond_def)

lemma hl_buckets: "handshakeLatencyMilliseconds = Some (map (\<lambda>i. Fin (1 * 2 ^ i)) [0..<17])"
proof -
  have "(0::real) < 1" and "(0::real) < 60 * 1000" and "2 * (60 * 1000) \<le> MaxFloat64"
    by (simp_all add: MaxFloat64_def)
  from exponentialDistribution_exact [OF this]
  obtain n where run: "exponentialDistribution (Fin 1) (Fin (60 * 1000))
        = Some (map (\<lambda>i. Fin (1 * 2 ^ i)) [0..<n])"
    and cnt: "\<forall>i. (1::real) * 2 ^ i < 2 * (60 * 1000) \<longleftrightarrow> i < n"
    by blast
  have "(1::real) * 2 ^ 16 < 2 * (60 * 1000)" by simp
  with cnt have "16 < n" by blast
  moreover have "\<not> (1::real) * 2 ^ 17 < 2 * (60 * 1000)" by simp
  with cnt have "\<not> 17 < n" by blast
  ultimately have "n = 17" by simp
  with run show ?thesis
    unfolding handshakeLatencyMilliseconds_def by (simp only:)
qed

lemma cd_buckets: "connDurationMilliseconds = Some (map (\<lambda>i. Fin (250 * 2 ^ i)) [0..<23])"
proof -
  have "(0::real) < 250" and "(0::real) < 604800000" and "2 * 604800000 \<le> MaxFloat64"
    by (simp_all add: MaxFloat64_def)
  from exponentialDistribution_exact [OF this]
  obtain n where run: "exponentialDistribution (Fin 250) (Fin 604800000)
        = Some (map (\<lambda>i. Fin (250 * 2 ^ i)) [0..<n])"
    and cnt: "\<forall>i. (250::real) * 2 ^ i < 2 * 604800000 \<longleftrightarrow> i < n"
    by blast
  have "(250::real) * 2 ^ 22 < 2 * 604800000" by simp
  with cnt have "22 < n" by blast
  moreover have "\<not> (250::real) * 2 ^ 23 < 2 * 604800000" by simp
  with cnt have "\<not> 23 < n" by blast
  ultimately have "n = 23" by simp
  moreover have "float64_of_int (Milliseconds (7 * 24 * Hour)) = Fin 604800000"
    unfolding week_ms by (simp add: float64_of_int_def)
  ultimately show ?thesis
    using run unfolding connDurationMilliseconds_def by (simp only:)
qed

subsection \<open>Claims about the tagger and the recorders\<close>

text \<open>
  Claim C4. For every direction and every connection state, the three recorders that
  take a direction submit one and the same list of tags, in which the direction tag is
  set to the string for the direction, one of \<open>outbound\<close>, \<open>inbound\<close> and
  \<open>unknown\<close>; the transport tag is the reported transport identifier, or \<open>unknown\<close>
  when the transport field is empty; the security and the muxer tag are set, to the
  field's value, if and only if the field is not empty. The same holds of the transport,
  security and muxer tags that the handshake recorder submits.
\<close>

theorem recorder_tags:
  "(\<exists>tags.
      recordConnectionOpened recordingStub dir cs [] = [(tags, [M connsOpened 1])]
      \<and> recordConnectionClosed recordingStub dir cs [] = [(tags, [M connsClosed 1])]
      \<and> recordConnectionDuration recordingStub dir t cs []
          = [(tags, [M connDuration (Milliseconds t)])]
      \<and> tagSet tags directionTag = Some (getDirection dir)
      \<and> getDirection dir \<in> {''outbound'', ''inbound'', ''unknown''}
      \<and> tagSet tags transportTag = Some (if Transport cs = [] then ''unknown'' else Transport cs)
      \<and> tagSet tags securityTag = (if Security cs = [] then None else Some (Security cs))
      \<and> tagSet tags muxerTag
          = (if StreamMultiplexer cs = [] then None else Some (StreamMultiplexer cs)))
   \<and> (\<exists>htags.
      recordHandshakeLatency recordingStub t cs []
          = [(htags, [M connHandshakeLatency (Milliseconds t)])]
      \<and> tagSet htags transportTag = Some (if Transport cs = [] then ''unknown'' else Transport cs)
      \<and> tagSet htags securityTag = (if Security cs = [] then None else Some (Security cs))
      \<and> tagSet htags muxerTag
          = (if StreamMultiplexer cs = [] then None else Some (StreamMultiplexer cs)))"
proof (rule conjI)
  let ?tags = "appendConnectionState [Upsert directionTag (getDirection dir)] cs"
  have "tagSet ?tags directionTag = Some (getDirection dir)"
    and "tagSet ?tags transportTag = Some (if Transport cs = [] then ''unknown'' else Transport cs)"
    and "tagSet ?tags securityTag = (if Security cs = [] then None else Some (Security cs))"
    and "tagSet ?tags muxerTag = (if StreamMultiplexer cs = [] then None else Some (StreamMultiplexer cs))"
    by (simp_all add: tagSet_appendConnectionState tagSet_single key_defs)
  moreover have "getDirection dir \<in> {''outbound'', ''inbound'', ''unknown''}"
    using getDirection_cases [of dir] by blast
  moreover have "recordConnectionOpened recordingStub dir cs [] = [(?tags, [M connsOpened 1])]"
    and "recordConnectionClosed recordingStub dir cs [] = [(?tags, [M connsClosed 1])]"
    and "recordConnectionDuration recordingStub dir t cs [] = [(?tags, [M connDuration (Milliseconds t)])]"
    by (simp_all add: recorders_submit recordingStub_def)
  ultimately show "\<exists>tags.
      recordConnectionOpened recordingStub dir cs [] = [(tags, [M connsOpened 1])]
      \<and> recordConnectionClosed recordingStub dir cs [] = [(tags, [M connsClosed 1])]
      \<and> recordConnectionDuration recordingStub dir t cs []
          = [(tags, [M connDuration (Milliseconds t)])]
      \<and> tagSet tags directionTag = Some (getDirection dir)
      \<and> getDirection dir \<in> {''outbound'', ''inbound'', ''unknown''}
      \<and> tagSet tags transportTag = Some (if Transport cs = [] then ''unknown'' else Transport cs)
      \<and> tagSet tags securityTag = (if Security cs = [] then None else Some (Security cs))
      \<and> tagSet tags muxerTag
          = (if StreamMultiplexer cs = [] then None else Some (StreamMultiplexer cs))"
    by blast
next
  let ?htags = "appendConnectionState [] cs"
  have "tagSet ?htags transportTag = Some (if Transport cs = [] then ''unknown'' else Transport cs)"
    and "tagSet ?htags securityTag = (if Security cs = [] then None else Some (Security cs))"
    and "tagSet ?htags muxerTag = (if StreamMultiplexer cs = [] then None else Some (StreamMultiplexer cs))"
    by (simp_all add: tagSet_appendConnectionState tagSet_Nil key_defs)
  moreover have "recordHandshakeLatency recordingStub t cs []
      = [(?htags, [M connHandshakeLatency (Milliseconds t)])]"
    by (simp add: recorders_submit recordingStub_def)
  ultimately show "\<exists>htags.
      recordHandshakeLatency recordingStub t cs []
          = [(htags, [M connHandshakeLatency (Milliseconds t)])]
      \<and> tagSet htags transportTag = Some (if Transport cs = [] then ''unknown'' else Transport cs)
      \<and> tagSet htags securityTag = (if Security cs = [] then None else Some (Security cs))
      \<and> tagSet htags muxerTag
          = (if StreamMultiplexer cs = [] then None else Some (StreamMultiplexer cs))"
    by blast
qed

text \<open>
  Claim C5, as stated: in the scenario of an outbound connection over TCP, TLS and yamux
  the observation is tagged under the keys named \<open>direction\<close>, \<open>transport\<close>,
  \<open>security\<close> and \<open>muxer\<close>. This fails on the first key: the source creates the
  direction key with the name \<open>dir\<close>, so the submitted tags carry \<open>dir: outbound\<close>
  and give no value to a key named \<open>direction\<close>.
\<close>

theorem recorder_tag_keys_counterexample:
  "recordConnectionOpened recordingStub DirOutbound tcpTlsYamux []
     = [([Upsert (Key ''dir'') ''outbound'', Upsert (Key ''transport'') ''tcp'',
          Upsert (Key ''security'') ''tls'', Upsert (Key ''muxer'') ''yamux''], [M connsOpened 1])]
   \<and> tagSet [Upsert (Key ''dir'') ''outbound'', Upsert (Key ''transport'') ''tcp'',
          Upsert (Key ''security'') ''tls'', Upsert (Key ''muxer'') ''yamux''] (Key ''direction'') = None"
  by (simp add: recorders_submit recordingStub_def tags_tcp tagSet_def)

text \<open>
  Claim C5, amended: for an outbound connection whose state reports transport \<open>tcp\<close>,
  security \<open>tls\<close> and muxer \<open>yamux\<close>, \<open>recordConnectionOpened\<close> makes exactly one
  submission, of the value 1 to the measure \<open>swarm/connections_opened\<close>, and
  \<open>recordConnectionDuration\<close> with an elapsed time of 1500 ms makes exactly one
  submission, of the value 1500 to the measure \<open>swarm/connection_duration\<close>; both
  carry the tags \<open>dir: outbound\<close>, \<open>transport: tcp\<close>, \<open>security: tls\<close>,
  \<open>muxer: yamux\<close>, the tag keys being named \<open>dir\<close>, \<open>transport\<close>, \<open>security\<close>
  and \<open>muxer\<close>.
\<close>

theorem recorder_scenario_tcp_tls_yamux:
  "recordConnectionOpened rwt DirOutbound tcpTlsYamux s
     = snd (rwt [Upsert (Key ''dir'') ''outbound'', Upsert (Key ''transport'') ''tcp'',
                 Upsert (Key ''security'') ''tls'', Upsert (Key ''muxer'') ''yamux'']
              [M connsOpened 1] s)
   \<and> recordConnectionDuration rwt DirOutbound (1500 * Millisecond) tcpTlsYamux s
     = snd (rwt [Upsert (Key ''dir'') ''outbound'', Upsert (Key ''transport'') ''tcp'',
                 Upsert (Key ''security'') ''tls'', Upsert (Key ''muxer'') ''yamux'']
              [M connDuration 1500] s)
   \<and> recordConnectionOpened recordingStub DirOutbound tcpTlsYamux []
     = [([Upsert (Key ''dir'') ''outbound'', Upsert (Key ''transport'') ''tcp'',
          Upsert (Key ''security'') ''tls'', Upsert (Key ''muxer'') ''yamux''], [M connsOpened 1])]
   \<and> recordConnectionDuration recordingStub DirOutbound (1500 * Millisecond) tcpTlsYamux []
     = [([Upsert (Key ''dir'') ''outbound'', Upsert (Key ''transport'') ''tcp'',
          Upsert (Key ''security'') ''tls'', Upsert (Key ''muxer'') ''yamux''], [M connDuration 1500])]
   \<and> tagSet [Upsert (Key ''dir'') ''outbound'', Upsert (Key ''transport'') ''tcp'',
              Upsert (Key ''security'') ''tls'', Upsert (Key ''muxer'') ''yamux'']
     = [Key ''dir'' \<mapsto> ''outbound'', Key ''transport'' \<mapsto> ''tcp'',
        Key ''security'' \<mapsto> ''tls'', Key ''muxer'' \<mapsto> ''yamux'']
   \<and> measureName connsOpened = ''swarm/connections_opened''
   \<and> measureName connDuration = ''swarm/connection_duration''"
  by (simp add: recorders_submit recordingStub_def tags_tcp ms1500 tagSet_def
      connsOpened_def connDuration_def Int64_def metricNamespace_def)

text \<open>
  Claim C6. For every elapsed time \<open>t\<close> and every connection state,
  \<open>recordHandshakeLatency\<close> makes one submission to the handshake latency measure, of
  the value \<open>t\<close> in whole milliseconds (\<open>t\<close> divided by \<open>10\<^sup>6\<close> and truncated towards
  zero). Its tags give no value to the direction key and have no key besides transport,
  security and muxer, and the handshake latency view declares exactly these three keys.
\<close>

theorem recordHandshakeLatency_tags:
  "recordHandshakeLatency rwt t cs s
     = snd (rwt (appendConnectionState [] cs) [M connHandshakeLatency (Milliseconds t)] s)
   \<and> recordHandshakeLatency recordingStub t cs []
     = [(appendConnectionState [] cs, [M connHandshakeLatency (Milliseconds t)])]
   \<and> \<bar>t - Milliseconds t * 1000000\<bar> < 1000000 \<and> \<bar>Milliseconds t * 1000000\<bar> \<le> \<bar>t\<bar>
   \<and> tagSet (appendConnectionState [] cs) directionTag = None
   \<and> dom (tagSet (appendConnectionState [] cs)) \<subseteq> {transportTag, securityTag, muxerTag}
   \<and> map_option TagKeys connHandshakeLatencyView = Some [transportTag, securityTag, muxerTag]
   \<and> map_option Measure connHandshakeLatencyView = Some connHandshakeLatency
   \<and> measureName connHandshakeLatency = ''swarm/handshake_latency''"
proof -
  have "tagSet (appendConnectionState [] cs) directionTag = None"
    by (simp add: tagSet_appendConnectionState tagSet_Nil key_defs)
  moreover have "dom (tagSet (appendConnectionState [] cs)) \<subseteq> {transportTag, securityTag, muxerTag}"
    by (auto simp: tagSet_appendConnectionState tagSet_Nil dom_def split: if_splits)
  moreover have "map_option TagKeys connHandshakeLatencyView = Some [transportTag, securityTag, muxerTag]"
    and "map_option Measure connHandshakeLatencyView = Some connHandshakeLatency"
    by (simp_all add: connHandshakeLatencyView_def hl_buckets)
  moreover have "measureName connHandshakeLatency = ''swarm/handshake_latency''"
    by (simp add: connHandshakeLatency_def Int64_def metricNamespace_def)
  ultimately show ?thesis
    using Milliseconds_trunc [of t] by (simp add: recorders_submit recordingStub_def)
qed

text \<open>
  Claim C7. \<open>DefaultViews\<close> is a list of exactly four views, one for each of the four
  (pairwise different) measures. The views of connections opened, connections closed and
  connection duration declare the four tag keys, the view of the handshake latency only
  transport, security and muxer. The two count views aggregate by sum. The two
  distribution views take their bucket boundaries from the bucket generator, run from
  250 ms with the number of milliseconds of one week as \<open>max\<close> for the connection
  duration (23 boundaries) and from 1 ms with 60 s as \<open>max\<close> for the handshake latency
  (17 boundaries).
\<close>

theorem DefaultViews_four:
  "connDurationMilliseconds = exponentialDistribution (Fin 250) (Fin (7 * 24 * 60 * 60 * 1000))
   \<and> handshakeLatencyMilliseconds = exponentialDistribution (Fin 1) (Fin (60 * 1000))
   \<and> connDurationMilliseconds = Some (map (\<lambda>i. Fin (250 * 2 ^ i)) [0..<23])
   \<and> handshakeLatencyMilliseconds = Some (map (\<lambda>i. Fin (1 * 2 ^ i)) [0..<17])
   \<and> DefaultViews = Some
       [\<lparr>Measure = connsOpened, Aggregation = Sum,
         TagKeys = [directionTag, transportTag, securityTag, muxerTag]\<rparr>,
        \<lparr>Measure = connsClosed, Aggregation = Sum,
         TagKeys = [directionTag, transportTag, securityTag, muxerTag]\<rparr>,
        \<lparr>Measure = connDuration,
         Aggregation = Distribution (map (\<lambda>i. Fin (250 * 2 ^ i)) [0..<23]),
         TagKeys = [directionTag, transportTag, securityTag, muxerTag]\<rparr>,
        \<lparr>Measure = connHandshakeLatency,
         Aggregation = Distribution (map (\<lambda>i. Fin (1 * 2 ^ i)) [0..<17]),
         TagKeys = [transportTag, securityTag, muxerTag]\<rparr>]
   \<and> distinct [connsOpened, connsClosed, connDuration, connHandshakeLatency]
   \<and> distinct [directionTag, transportTag, securityTag, muxerTag]"
proof -
  have "float64_of_int (Milliseconds (7 * 24 * Hour)) = Fin (7 * 24 * 60 * 60 * 1000)"
    unfolding week_ms by (simp add: float64_of_int_def)
  then have "connDurationMilliseconds
      = exponentialDistribution (Fin 250) (Fin (7 * 24 * 60 * 60 * 1000))"
    unfolding connDurationMilliseconds_def by (simp only:)
  moreover have "handshakeLatencyMilliseconds = exponentialDistribution (Fin 1) (Fin (60 * 1000))"
    by (simp only: handshakeLatencyMilliseconds_def)
  moreover have "DefaultViews = Some
       [\<lparr>Measure = connsOpened, Aggregation = Sum,
         TagKeys = [directionTag, transportTag, securityTag, muxerTag]\<rparr>,
        \<lparr>Measure = connsClosed, Aggregation = Sum,
         TagKeys = [directionTag, transportTag, securityTag, muxerTag]\<rparr>,
        \<lparr>Measure = connDuration,
         Aggregation = Distribution (map (\<lambda>i. Fin (250 * 2 ^ i)) [0..<23]),
         TagKeys = [directionTag, transportTag, securityTag, muxerTag]\<rparr>,
        \<lparr>Measure = connHandshakeLatency,
         Aggregation = Distribution (map (\<lambda>i. Fin (1 * 2 ^ i)) [0..<17]),
         TagKeys = [transportTag, securityTag, muxerTag]\<rparr>]"
    unfolding DefaultViews_def connDurationView_def connHandshakeLatencyView_def
      connOpenView_def connClosedView_def cd_buckets hl_buckets
    by (simp only: option.case)
  moreover have "distinct [connsOpened, connsClosed, connDuration, connHandshakeLatency]"
    by (simp add: connsOpened_def connsClosed_def connDuration_def connHandshakeLatency_def
        Int64_def)
  moreover have "distinct [directionTag, transportTag, securityTag, muxerTag]"
    by (simp add: key_defs)
  ultimately show ?thesis
    using cd_buckets hl_buckets by (simp only: simp_thms)
qed

text \<open>
  Claim C8. None of the four recorders can fail observably to its caller. A recorder
  hands back nothing but the engine's state, so there is no error for the caller to
  see; and what it hands back does not depend on the errors of the engine: two engines
  that act alike on the engine's state, whatever errors they return, give the same
  result under every recorder, and under an engine that rejects every submission each
  recorder returns with the state untouched.
\<close>

theorem recorders_absorb_errors:
  assumes "\<forall>tags ms s. snd (rwt tags ms s) = snd (rwt' tags ms s)"
  shows "recordConnectionOpened rwt dir cs s = recordConnectionOpened rwt' dir cs s
       \<and> recordConnectionClosed rwt dir cs s = recordConnectionClosed rwt' dir cs s
       \<and> recordConnectionDuration rwt dir t cs s = recordConnectionDuration rwt' dir t cs s
       \<and> recordHandshakeLatency rwt t cs s = recordHandshakeLatency rwt' t cs s
       \<and> recordConnectionOpened (failingStub e) dir cs s = s
       \<and> recordConnectionClosed (failingStub e) dir cs s = s
       \<and> recordConnectionDuration (failingStub e) dir t cs s = s
       \<and> recordHandshakeLatency (failingStub e) t cs s = s"
  using assms by (simp add: recorders_submit failingStub_def)

theorem recorders_absorb_errors_witness:
  "(\<forall>tags ms (s::nat). snd (failingStub (Error ''view not registered'') tags ms s) = snd (silentStub tags ms s))
   \<and> recordConnectionOpened (failingStub (Error ''view not registered'')) DirOutbound tcpTlsYamux (0::nat)
       = recordConnectionOpened silentStub DirOutbound tcpTlsYamux 0
   \<and> recordHandshakeLatency (failingStub (Error ''view not registered'')) (1500 * Millisecond) tcpTlsYamux (0::nat)
       = recordHandshakeLatency silentStub (1500 * Millisecond) tcpTlsYamux 0
   \<and> recordConnectionOpened (failingStub (Error ''view not registered'')) DirOutbound tcpTlsYamux (0::nat) = 0"
proof -
  have h: "\<forall>tags ms (s::nat). snd (failingStub (Error ''view not registered'') tags ms s) = snd (silentStub tags ms s)"
    by (simp add: failingStub_def silentStub_def)
  from recorders_absorb_errors [OF h, of DirOutbound tcpTlsYamux 0 "1500 * Millisecond" "Error ''view not registered''"] h
  show ?thesis by blast
qed

section \<open>Proofs: the feature configuration\<close>

lemma config_apply_succeeds:
  "succeeds opts cfg \<Longrightarrow> config_apply opts cfg = (None, applied opts cfg)"
proof (induction opts arbitrary: cfg)
  case Nil
  show ?case by simp
next
  case (Cons opt opts)
  then show ?case by (cases "opt cfg") simp
qed

lemma config_apply_prefix:
  "succeeds pre cfg \<Longrightarrow> config_apply (pre @ rest) cfg = config_apply rest (applied pre cfg)"
proof (induction pre arbitrary: cfg)
  case Nil
  show ?case by simp
next
  case (Cons opt pre)
  then show ?case by (cases "opt cfg") simp
qed

text \<open>
  Claim C9. Applying options to the configuration is idempotent per field and
  independent of the order across distinct fields: from every starting configuration,
  each of the three options applied twice gives what it gives applied once, and any two
  different options give the same configuration in either order; for instance
  \<open>[DisableReuseport, WithMetrics]\<close> and \<open>[WithMetrics, DisableReuseport]\<close> both
  return \<^verbatim>\<open>nil\<close> and leave both fields set.
\<close>

theorem options_idempotent_commute:
  "config_apply [DisableReuseport, DisableReuseport] cfg = config_apply [DisableReuseport] cfg
   \<and> config_apply [DisableDraft29, DisableDraft29] cfg = config_apply [DisableDraft29] cfg
   \<and> config_apply [WithMetrics, WithMetrics] cfg = config_apply [WithMetrics] cfg
   \<and> config_apply [DisableReuseport, WithMetrics] cfg = config_apply [WithMetrics, DisableReuseport] cfg
   \<and> config_apply [DisableReuseport, DisableDraft29] cfg = config_apply [DisableDraft29, DisableReuseport] cfg
   \<and> config_apply [DisableDraft29, WithMetrics] cfg = config_apply [WithMetrics, DisableDraft29] cfg
   \<and> config_apply [DisableReuseport, WithMetrics] cfg
       = (None, cfg\<lparr>disableReuseport := True, metrics := True\<rparr>)"
  by (simp add: DisableReuseport_def DisableDraft29_def WithMetrics_def)

text \<open>
  Claim C10. \<open>apply\<close> runs the options strictly in order. If every option returns
  \<^verbatim>\<open>nil\<close>, it returns \<^verbatim>\<open>nil\<close> and leaves the configuration that running all of them
  in order produces; for no options at all it returns \<^verbatim>\<open>nil\<close> and leaves the
  configuration as it was. If the options before some option all return \<^verbatim>\<open>nil\<close> and
  that option returns an error, \<open>apply\<close> returns this error, the configuration is left
  as the options before it and the failing option itself have made it (nothing is rolled
  back), and the options after it have no influence on the result: they are not run.
\<close>

theorem config_apply_first_error:
  "(succeeds opts cfg \<longrightarrow> config_apply opts cfg = (None, applied opts cfg))
   \<and> (succeeds pre cfg \<and> f (applied pre cfg) = (Some e, cfg')
        \<longrightarrow> config_apply (pre @ f # post) cfg = (Some e, cfg'))
   \<and> config_apply [] cfg = (None, cfg)"
  by (simp add: config_apply_succeeds config_apply_prefix)

theorem config_apply_first_error_witness:
  "succeeds [DisableReuseport, WithMetrics] cfg0
   \<and> config_apply [DisableReuseport, WithMetrics] cfg0
       = (None, \<lparr>disableReuseport = True, disableDraft29 = False, metrics = True\<rparr>)
   \<and> succeeds [DisableReuseport] cfg0
   \<and> failingOption (applied [DisableReuseport] cfg0)
       = (Some (Error ''bad option''), \<lparr>disableReuseport = True, disableDraft29 = False, metrics = False\<rparr>)
   \<and> config_apply ([DisableReuseport] @ failingOption # [WithMetrics]) cfg0
       = (Some (Error ''bad option''), \<lparr>disableReuseport = True, disableDraft29 = False, metrics = False\<rparr>)"
proof -
  have h1: "succeeds [DisableReuseport, WithMetrics] cfg0"
    by (simp add: DisableReuseport_def WithMetrics_def)
  have h2: "succeeds [DisableReuseport] cfg0"
    by (simp add: DisableReuseport_def)
  have h3: "failingOption (applied [DisableReuseport] cfg0)
       = (Some (Error ''bad option''), \<lparr>disableReuseport = True, disableDraft29 = False, metrics = False\<rparr>)"
    by (simp add: failingOption_def DisableReuseport_def cfg0_def)
  have a: "applied [DisableReuseport, WithMetrics] cfg0
       = \<lparr>disableReuseport = True, disableDraft29 = False, metrics = True\<rparr>"
    by (simp add: DisableReuseport_def WithMetrics_def cfg0_def)
  from config_apply_first_error [of "[DisableReuseport, WithMetrics]" cfg0 "[DisableReuseport]"
      failingOption "Error ''bad option''" "\<lparr>disableReuseport = True, disableDraft29 = False, metrics = False\<rparr>"
      "[WithMetrics]"] h1 h2 h3 a
  show ?thesis by simp
qed

end
